theory Spec2Isabelle
  imports Main "HOL-Library.Word"
begin

section \<open>Arena-backed leaf values of slime: \<open>basic_value.cpp\<close>\<close>

text \<open>
  The translation unit \<open>vespalib/data/slime/basic_value.cpp\<close> holds one helper,
  \<^verbatim>\<open>store(Memory m, Stash & stash)\<close>, and the two constructors
  \<^verbatim>\<open>BasicStringValue::BasicStringValue\<close> and \<^verbatim>\<open>BasicDataValue::BasicDataValue\<close>
  that call it. The helper allocates \<open>m.size\<close> bytes in the stash, copies the bytes of
  \<open>m\<close> there with \<open>memcpy\<close>, and returns a \<open>Memory\<close> over the copy.

  The embedding uses an explicit store: memory is a function from addresses to bytes,
  a \<open>Memory\<close> is a pair of an address and a length, and every operation takes the
  state and returns the new one. Failures are values of the type \<open>error\<close>.
\<close>

subsection \<open>Memory, bytes and byte views\<close>

text \<open>
  A byte is a word of eight bits. Addresses and sizes are natural numbers: \<open>store\<close>
  does no arithmetic on a pointer or on a \<open>size_t\<close>, it passes them on to \<open>alloc\<close> and
  \<open>memcpy\<close>, so the width of the machine word plays no part in it.
\<close>

type_synonym addr = nat
type_synonym byte = "8 word"

text \<open>
  \<^verbatim>\<open>struct Memory { const char *data; size_t size; }\<close>: a non-owning view. The field
  \<open>size\<close> is written \<open>size'\<close> here, since \<open>size\<close> is a constant of HOL.
\<close>

record Memory =
  data :: addr
  size' :: nat

text \<open>
  The state outside the stash: the content of memory, and the host allocator, which
  has handed out every address below \<open>host_brk\<close> and can still hand out the addresses
  from \<open>host_brk\<close> up to \<open>host_limit\<close>.
\<close>

record machine =
  bytes :: "addr \<Rightarrow> byte"
  host_brk :: addr
  host_limit :: addr

datatype error = OutOfMemory | UndefinedBehaviour

text \<open>The addresses a view covers, and the bytes found there.\<close>

definition region :: "Memory \<Rightarrow> addr set" where
  "region m = {data m ..< data m + size' m}"

definition content :: "(addr \<Rightarrow> byte) \<Rightarrow> Memory \<Rightarrow> byte list" where
  "content h m = map h [data m ..< data m + size' m]"

subsection \<open>The C library's \<open>memcpy\<close>\<close>

text \<open>
  \<^verbatim>\<open>memcpy(dst, src, n)\<close> copies \<open>n\<close> bytes from \<open>src\<close> to \<open>dst\<close>. ISO C leaves the
  behaviour undefined when the two ranges overlap; the model makes that a branch of
  its own instead of choosing a copy order. Two ranges of length \<open>0\<close> never overlap:
  a call with \<open>n = 0\<close> reads and writes no byte, whatever the two pointers are.
\<close>

definition memcpy :: "addr \<Rightarrow> addr \<Rightarrow> nat \<Rightarrow> (addr \<Rightarrow> byte) \<Rightarrow> error + (addr \<Rightarrow> byte)" where
  "memcpy dst src n h =
     (if dst < src + n \<and> src < dst + n then Inl UndefinedBehaviour
      else Inr (\<lambda>a. if dst \<le> a \<and> a < dst + n then h (src + (a - dst)) else h a))"

subsection \<open>The stash\<close>

text \<open>
  Modelled from the spec: the class \<open>Stash\<close> (\<open>vespalib/util/stash.h\<close>) and its member
  \<open>alloc\<close> are not among the sources. The spec describes a bump allocator that owns
  a growable collection of memory blocks, hands out sub-ranges of the current block,
  takes a new block from the host when the current one lacks the capacity, fails with
  an out-of-memory condition when the host cannot supply the block, and never frees,
  moves or reuses a region it has handed out.

  \<open>chunks\<close> are the owned blocks as pairs of base address and capacity, the current
  block first; \<open>used\<close> is the number of bytes handed out of the current block;
  \<open>chunk_size\<close> is the capacity of a regular block. \<open>requests\<close> is a ghost field: the
  sizes of the allocation requests served so far, oldest first.
\<close>

record Stash =
  chunk_size :: nat
  chunks :: "(addr \<times> nat) list"
  used :: nat
  requests :: "nat list"

text \<open>
  Modelled from the spec: the host's memory allocator, which the stash asks for a new
  block. It fails when the remaining memory cannot hold the block.
\<close>

definition host_alloc :: "nat \<Rightarrow> machine \<Rightarrow> error + (addr \<times> machine)" where
  "host_alloc n w =
     (if host_brk w + n \<le> host_limit w
      then Inr (host_brk w, w\<lparr>host_brk := host_brk w + n\<rparr>)
      else Inl OutOfMemory)"

text \<open>
  Modelled from the spec: the slow path of \<open>allocate(size)\<close>. The new block has the
  regular capacity, or the requested size when that is larger; the region is its
  first \<open>n\<close> bytes.
\<close>

definition new_chunk :: "nat \<Rightarrow> Stash \<Rightarrow> machine \<Rightarrow> error + (addr \<times> Stash \<times> machine)" where
  "new_chunk n st w =
     (case host_alloc (max (chunk_size st) n) w of
        Inl e \<Rightarrow> Inl e
      | Inr (b, w') \<Rightarrow>
          Inr (b, st\<lparr>chunks := (b, max (chunk_size st) n) # chunks st, used := n,
                      requests := requests st @ [n]\<rparr>, w'))"

text \<open>
  Modelled from the spec: \<open>allocate(size)\<close>, the member \<open>Stash::alloc\<close>. A request that
  fits into the rest of the current block is served from it by advancing \<open>used\<close>;
  any other request takes a new block. A request of size \<open>0\<close> is legal.
\<close>

definition alloc :: "nat \<Rightarrow> Stash \<Rightarrow> machine \<Rightarrow> error + (addr \<times> Stash \<times> machine)" where
  "alloc n st w =
     (case chunks st of
        [] \<Rightarrow> new_chunk n st w
      | (b, c) # _ \<Rightarrow>
          if used st + n \<le> c
          then Inr (b + used st, st\<lparr>used := used st + n, requests := requests st @ [n]\<rparr>, w)
          else new_chunk n st w)"

text \<open>
  The memory that a later allocation may hand out: the rest of the current block and
  what the host has left. The memory the stash owns: all of its blocks.
\<close>

definition free_space :: "Stash \<Rightarrow> machine \<Rightarrow> addr set" where
  "free_space st w =
     (case chunks st of [] \<Rightarrow> {} | (b, c) # _ \<Rightarrow> {b + used st ..< b + c})
     \<union> {host_brk w ..< host_limit w}"

definition owned :: "Stash \<Rightarrow> addr set" where
  "owned st = (\<Union>(b, c) \<in> set (chunks st). {b ..< b + c})"

text \<open>
  The stash is well-formed, in a state of the machine, when every block it owns was
  handed out by the host: the block lies below \<open>host_brk\<close>. A stash without blocks,
  as its constructor leaves it, is well-formed.
\<close>

definition stash_ok :: "Stash \<Rightarrow> machine \<Rightarrow> bool" where
  "stash_ok st w = (\<forall>(b, c) \<in> set (chunks st). b + c \<le> host_brk w)"

subsection \<open>The functions of \<open>basic_value.cpp\<close>\<close>

text \<open>
  \<^verbatim>\<open>
  Memory store(Memory m, Stash & stash) {
      char * buf = stash.alloc(m.size);
      memcpy(buf, m.data, m.size);
      return Memory(buf, m.size);
  }
  \<close>
  The stash is passed by reference and memory is global, so both are returned with
  the result. An exception of \<open>alloc\<close> leaves \<open>store\<close> at once: there is no handler.
\<close>

definition store :: "Memory \<Rightarrow> Stash \<Rightarrow> machine \<Rightarrow> error + (Memory \<times> Stash \<times> machine)" where
  "store m stash w =
     (case alloc (size' m) stash w of
        Inl e \<Rightarrow> Inl e
      | Inr (buf, stash', w') \<Rightarrow>
          (case memcpy buf (data m) (size' m) (bytes w') of
             Inl e \<Rightarrow> Inl e
           | Inr h \<Rightarrow> Inr (\<lparr>data = buf, size' = size' m\<rparr>, stash', w'\<lparr>bytes := h\<rparr>)))"

text \<open>
  The two classes have one member each, \<open>_value\<close> of type \<open>Memory\<close>, initialised with
  \<^verbatim>\<open>_value(store(m, stash))\<close>. An identifier of Isabelle cannot start with an
  underscore, so the member is the selector \<open>string_value\<close> or \<open>data_value\<close>.
\<close>

datatype BasicStringValue = StringValue (string_value: Memory)

datatype BasicDataValue = DataValue (data_value: Memory)

definition new_BasicStringValue ::
  "Memory \<Rightarrow> Stash \<Rightarrow> machine \<Rightarrow> error + (BasicStringValue \<times> Stash \<times> machine)" where
  "new_BasicStringValue m stash w =
     (case store m stash w of
        Inl e \<Rightarrow> Inl e
      | Inr (v, stash', w') \<Rightarrow> Inr (StringValue v, stash', w'))"

definition new_BasicDataValue ::
  "Memory \<Rightarrow> Stash \<Rightarrow> machine \<Rightarrow> error + (BasicDataValue \<times> Stash \<times> machine)" where
  "new_BasicDataValue m stash w =
     (case store m stash w of
        Inl e \<Rightarrow> Inl e
      | Inr (v, stash', w') \<Rightarrow> Inr (DataValue v, stash', w'))"

text \<open>
  A caller's view is live when none of its bytes lies in memory that is still to be
  handed out: a buffer the caller owns was allocated before the call.
\<close>

definition live :: "Memory \<Rightarrow> Stash \<Rightarrow> machine \<Rightarrow> bool" where
  "live m st w = (region m \<inter> free_space st w = {})"

subsection \<open>Clients of the constructors\<close>

text \<open>
  A document builder constructs one value after the other against the same stash.
  \<open>store_all\<close> is that loop: it calls \<open>store\<close> for each source in turn, threads the
  stash and the memory through, collects the views in the order of construction, and
  stops at the first failure.
\<close>

fun store_all :: "Memory list \<Rightarrow> Stash \<Rightarrow> machine \<Rightarrow> error + (Memory list \<times> Stash \<times> machine)" where
  "store_all [] stash w = Inr ([], stash, w)"
| "store_all (m # ms) stash w =
     (case store m stash w of
        Inl e \<Rightarrow> Inl e
      | Inr (v, stash', w') \<Rightarrow>
          (case store_all ms stash' w' of
             Inl e \<Rightarrow> Inl e
           | Inr (vs, stash'', w'') \<Rightarrow> Inr (v # vs, stash'', w'')))"

text \<open>
  Modelled from the spec: reading a value. The accessors of the two classes are
  declared in \<open>basic_value.h\<close>, which is not among the sources; the spec says that a
  value exposes a read-only view and that consumers read but never write. A read
  returns the bytes under the view and the memory as it was.
\<close>

definition read_content :: "Memory \<Rightarrow> machine \<Rightarrow> byte list \<times> machine" where
  "read_content v w = (content (bytes w) v, w)"

text \<open>
  The operations a client has once a value exists: constructing a further value of
  either class from some source, and reading through a view.
\<close>

datatype operation = ConstructString Memory | ConstructData Memory | Read Memory

fun perform :: "operation \<Rightarrow> Stash \<Rightarrow> machine \<Rightarrow> error + (Stash \<times> machine)" where
  "perform (ConstructString m) stash w =
     (case new_BasicStringValue m stash w of
        Inl e \<Rightarrow> Inl e
      | Inr (v, stash', w') \<Rightarrow> Inr (stash', w'))"
| "perform (ConstructData m) stash w =
     (case new_BasicDataValue m stash w of
        Inl e \<Rightarrow> Inl e
      | Inr (v, stash', w') \<Rightarrow> Inr (stash', w'))"
| "perform (Read v) stash w = Inr (stash, snd (read_content v w))"

fun perform_all :: "operation list \<Rightarrow> Stash \<Rightarrow> machine \<Rightarrow> error + (Stash \<times> machine)" where
  "perform_all [] stash w = Inr (stash, w)"
| "perform_all (x # xs) stash w =
     (case perform x stash w of
        Inl e \<Rightarrow> Inl e
      | Inr (stash', w') \<Rightarrow> perform_all xs stash' w')"

subsection \<open>A concrete state\<close>

text \<open>
  The scenario of the spec: the caller holds the text \<open>hello\<close> at the addresses 100
  to 104 and the bytes \<open>00 FF 10\<close> at 200 to 202; the host can hand out the addresses
  1000 to 1999; the stash is new, with blocks of 64 bytes.
\<close>

definition hello_bytes :: "addr \<Rightarrow> byte" where
  "hello_bytes =
     (\<lambda>a. if a = 100 then 104 else if a = 101 then 101 else if a = 102 then 108
          else if a = 103 then 108 else if a = 104 then 111
          else if a = 201 then 255 else if a = 202 then 16 else 0)"

definition hello_machine :: machine where
  "hello_machine = \<lparr>bytes = hello_bytes, host_brk = 1000, host_limit = 2000\<rparr>"

definition new_stash :: Stash where
  "new_stash = \<lparr>chunk_size = 64, chunks = [], used = 0, requests = []\<rparr>"

definition hello :: Memory where
  "hello = \<lparr>data = 100, size' = 5\<rparr>"

definition payload :: Memory where
  "payload = \<lparr>data = 200, size' = 3\<rparr>"

text \<open>The state after \<open>hello\<close> has been stored: one block, five bytes of it used.\<close>

definition hello_stored :: "addr \<Rightarrow> byte" where
  "hello_stored =
     (\<lambda>a. if 1000 \<le> a \<and> a < 1000 + 5 then hello_bytes (100 + (a - 1000)) else hello_bytes a)"

definition stash_1 :: Stash where
  "stash_1 = \<lparr>chunk_size = 64, chunks = [(1000, 64)], used = 5, requests = [5]\<rparr>"

definition machine_1 :: machine where
  "machine_1 = \<lparr>bytes = hello_stored, host_brk = 1064, host_limit = 2000\<rparr>"

text \<open>
  The caller writes \<open>XXXXX\<close> over its buffer after \<open>hello\<close> has been stored.
\<close>

definition hello_overwritten :: "addr \<Rightarrow> byte" where
  "hello_overwritten = (\<lambda>a. if 100 \<le> a \<and> a < 105 then 88 else hello_stored a)"

text \<open>The state after \<open>payload\<close> has been stored next: eight bytes of the block used.\<close>

definition stash_2 :: Stash where
  "stash_2 = \<lparr>chunk_size = 64, chunks = [(1000, 64)], used = 8, requests = [5, 3]\<rparr>"

definition payload_stored :: "addr \<Rightarrow> byte" where
  "payload_stored =
     (\<lambda>a. if 1005 \<le> a \<and> a < 1005 + 3 then hello_stored (200 + (a - 1005)) else hello_stored a)"

definition machine_2 :: machine where
  "machine_2 = \<lparr>bytes = payload_stored, host_brk = 1064, host_limit = 2000\<rparr>"

text \<open>A host with two bytes left, an empty view, and a memory that differs from
  \<open>hello_bytes\<close> outside the caller's buffer.\<close>

definition tight_machine :: machine where
  "tight_machine = \<lparr>bytes = hello_bytes, host_brk = 1000, host_limit = 1002\<rparr>"




definition other_machine :: machine where
  "other_machine =
     \<lparr>bytes = (\<lambda>a. if a = 300 then 7 else hello_bytes a), host_brk = 1000, host_limit = 2000\<rparr>"




section \<open>Properties of the allocator\<close>

lemma host_alloc_Inr:
  assumes "host_alloc n w = Inr (p, w')"
  shows "p = host_brk w" and "host_brk w + n \<le> host_limit w"
    and "w' = w\<lparr>host_brk := host_brk w + n\<rparr>"
  using assms by (auto simp: host_alloc_def split: if_splits)

lemma host_alloc_error: "host_alloc n w = Inl e \<Longrightarrow> e = OutOfMemory"
  by (auto simp: host_alloc_def split: if_splits)

lemma new_chunk_error: "new_chunk n st w = Inl e \<Longrightarrow> e = OutOfMemory"
  by (auto simp: new_chunk_def split: sum.splits dest: host_alloc_error)

lemma alloc_error: "alloc n st w = Inl e \<Longrightarrow> e = OutOfMemory"
  by (auto simp: alloc_def split: list.splits if_splits dest: new_chunk_error)

lemma new_chunk_Inr:
  assumes "new_chunk n st w = Inr (p, st', w')"
  shows "p = host_brk w"
    and "host_brk w + max (chunk_size st) n \<le> host_limit w"
    and "w' = w\<lparr>host_brk := host_brk w + max (chunk_size st) n\<rparr>"
    and "st' = st\<lparr>chunks := (p, max (chunk_size st) n) # chunks st, used := n,
                    requests := requests st @ [n]\<rparr>"
  using assms
  by (auto simp: new_chunk_def split: sum.splits dest: host_alloc_Inr)

lemma new_chunk_fresh:
  assumes "stash_ok st w" and "new_chunk n st w = Inr (p, st', w')"
  shows "{p ..< p + n} \<subseteq> free_space st w"
    and "free_space st' w' \<subseteq> free_space st w - {p ..< p + n}"
    and "{p ..< p + n} \<subseteq> owned st'"
    and "stash_ok st' w'"
    and "bytes w' = bytes w"
    and "requests st' = requests st @ [n]"
proof -
  note r = new_chunk_Inr [OF assms(2)]
  show "{p ..< p + n} \<subseteq> free_space st w"
    using r(1,2) by (auto simp: free_space_def)
  show "free_space st' w' \<subseteq> free_space st w - {p ..< p + n}"
    using r(1,2) by (auto simp: free_space_def r(3,4))
  show "{p ..< p + n} \<subseteq> owned st'"
    by (auto simp: owned_def r(4))
  show "stash_ok st' w'"
    using assms(1) r(1) by (auto simp: stash_ok_def r(3,4))
  show "bytes w' = bytes w"
    by (simp add: r(3))
  show "requests st' = requests st @ [n]"
    by (simp add: r(4))
qed

lemma alloc_cases:
  assumes "alloc n st w = Inr (p, st', w')"
  obtains (bump) b c cs where "chunks st = (b, c) # cs" and "used st + n \<le> c"
      and "p = b + used st"
      and "st' = st\<lparr>used := used st + n, requests := requests st @ [n]\<rparr>" and "w' = w"
    | (fresh) "new_chunk n st w = Inr (p, st', w')"
proof (cases "chunks st")
  case Nil
  then show ?thesis
    using assms fresh by (simp add: alloc_def)
next
  case (Cons a cs)
  obtain b c where a: "a = (b, c)"
    by (cases a)
  show ?thesis
  proof (cases "used st + n \<le> c")
    case True
    then show ?thesis
      using assms Cons a bump [of b c cs] by (simp add: alloc_def)
  next
    case False
    then show ?thesis
      using assms Cons a fresh by (simp add: alloc_def)
  qed
qed

lemma bump_fresh:
  assumes "stash_ok st w" and "chunks st = (b, c) # cs" and "used st + n \<le> c"
    and "p = b + used st"
    and "st' = st\<lparr>used := used st + n, requests := requests st @ [n]\<rparr>"
  shows "{p ..< p + n} \<subseteq> free_space st w"
    and "free_space st' w \<subseteq> free_space st w - {p ..< p + n}"
    and "{p ..< p + n} \<subseteq> owned st'"
    and "stash_ok st' w"
proof -
  have below: "b + c \<le> host_brk w"
    using assms(1,2) by (simp add: stash_ok_def)
  show "{p ..< p + n} \<subseteq> free_space st w"
    using assms(2,3,4) by (auto simp: free_space_def)
  show "free_space st' w \<subseteq> free_space st w - {p ..< p + n}"
    using assms(2,3,4) below by (auto simp: free_space_def assms(5))
  show "{p ..< p + n} \<subseteq> owned st'"
    using assms(2,3,4) by (auto simp: owned_def assms(5))
  show "stash_ok st' w"
    using assms(1) by (simp add: stash_ok_def assms(5))
qed

lemma alloc_fresh:
  assumes "stash_ok st w" and "alloc n st w = Inr (p, st', w')"
  shows "{p ..< p + n} \<subseteq> free_space st w"
    and "free_space st' w' \<subseteq> free_space st w - {p ..< p + n}"
    and "{p ..< p + n} \<subseteq> owned st'"
    and "stash_ok st' w'"
    and "bytes w' = bytes w"
    and "requests st' = requests st @ [n]"
proof -
  have "{p ..< p + n} \<subseteq> free_space st w
      \<and> free_space st' w' \<subseteq> free_space st w - {p ..< p + n}
      \<and> {p ..< p + n} \<subseteq> owned st'
      \<and> stash_ok st' w'
      \<and> bytes w' = bytes w
      \<and> requests st' = requests st @ [n]"
    using assms(2)
  proof (cases rule: alloc_cases)
    case (bump b c cs)
    have "requests st' = requests st @ [n]"
      by (simp add: bump(4))
    then show ?thesis
      using bump_fresh [OF assms(1) bump(1,2,3,4)] bump(5) by simp
  next
    case fresh
    then show ?thesis
      using new_chunk_fresh [OF assms(1) fresh] by simp
  qed
  then show "{p ..< p + n} \<subseteq> free_space st w"
    and "free_space st' w' \<subseteq> free_space st w - {p ..< p + n}"
    and "{p ..< p + n} \<subseteq> owned st'"
    and "stash_ok st' w'"
    and "bytes w' = bytes w"
    and "requests st' = requests st @ [n]"
    by simp_all
qed

lemma alloc_bytes:
  assumes "alloc n st w = Inr (p, st', w')"
  shows "bytes w' = bytes w" and "host_limit w' = host_limit w"
proof -
  have "bytes w' = bytes w \<and> host_limit w' = host_limit w"
    using assms
  proof (cases rule: alloc_cases)
    case (bump b c cs)
    then show ?thesis by simp
  next
    case fresh
    then show ?thesis
      using new_chunk_Inr(3) [OF fresh] by simp
  qed
  then show "bytes w' = bytes w" and "host_limit w' = host_limit w"
    by simp_all
qed


section \<open>Properties of \<open>memcpy\<close> and of reading a view\<close>

lemma region_eq_set: "region m = set [data m ..< data m + size' m]"
  by (simp add: region_def)

lemma length_content: "length (content h m) = size' m"
  by (simp add: content_def)

lemma content_nth: "i < size' m \<Longrightarrow> content h m ! i = h (data m + i)"
  by (simp add: content_def)

lemma content_cong:
  assumes "\<And>a. a \<in> region m \<Longrightarrow> h1 a = h2 a"
  shows "content h1 m = content h2 m"
  unfolding content_def
  by (rule map_cong [OF refl]) (simp add: assms region_def)

lemma disjoint_no_overlap:
  assumes "{dst ..< dst + n} \<inter> {src ..< src + n} = {}"
  shows "\<not> (dst < src + n \<and> src < dst + (n::nat))"
proof
  assume ov: "dst < src + n \<and> src < dst + n"
  then have "max dst src \<in> {dst ..< dst + n} \<inter> {src ..< src + n}"
    by auto
  with assms show False
    by blast
qed

lemma no_overlap_disjoint:
  assumes "\<not> (dst < src + n \<and> src < dst + (n::nat))"
  shows "{dst ..< dst + n} \<inter> {src ..< src + n} = {}"
  using assms by auto

lemma memcpy_Inr:
  assumes "memcpy dst src n h = Inr h'"
  shows "{dst ..< dst + n} \<inter> {src ..< src + n} = {}"
    and "\<And>i. i < n \<Longrightarrow> h' (dst + i) = h (src + i)"
    and "\<And>a. a \<notin> {dst ..< dst + n} \<Longrightarrow> h' a = h a"
proof -
  have no: "\<not> (dst < src + n \<and> src < dst + n)"
    and h': "h' = (\<lambda>a. if dst \<le> a \<and> a < dst + n then h (src + (a - dst)) else h a)"
    using assms by (auto simp: memcpy_def split: if_splits)
  show "{dst ..< dst + n} \<inter> {src ..< src + n} = {}"
    by (rule no_overlap_disjoint [OF no])
  show "h' (dst + i) = h (src + i)" if "i < n" for i
    using that by (simp add: h')
  show "h' a = h a" if "a \<notin> {dst ..< dst + n}" for a
    using that by (auto simp: h')
qed

lemma memcpy_total:
  assumes "{dst ..< dst + n} \<inter> {src ..< src + n} = {}"
  shows "\<exists>h'. memcpy dst src n h = Inr h'"
  using disjoint_no_overlap [OF assms] by (simp add: memcpy_def)

lemma memcpy_error: "memcpy dst src n h = Inl e \<Longrightarrow> e = UndefinedBehaviour"
  by (auto simp: memcpy_def split: if_splits)


section \<open>Properties of \<open>store\<close>\<close>

text \<open>What a successful call of \<open>store\<close> has done, step by step.\<close>

lemma store_Inr:
  assumes "store m st w = Inr (v, st', w')"
  obtains w0 where "alloc (size' m) st w = Inr (data v, st', w0)"
    and "memcpy (data v) (data m) (size' m) (bytes w) = Inr (bytes w')"
    and "size' v = size' m"
    and "w' = w0\<lparr>bytes := bytes w'\<rparr>"
proof -
  from assms obtain buf w0 h where a: "alloc (size' m) st w = Inr (buf, st', w0)"
    and c: "memcpy buf (data m) (size' m) (bytes w0) = Inr h"
    and v: "v = \<lparr>data = buf, size' = size' m\<rparr>" and w': "w' = w0\<lparr>bytes := h\<rparr>"
    by (auto simp: store_def split: sum.splits)
  have "bytes w0 = bytes w"
    by (rule alloc_bytes(1) [OF a])
  with a c v w' that [of w0] show ?thesis
    by simp
qed

text \<open>When the allocation succeeds and the source is live, \<open>store\<close> succeeds.\<close>

lemma store_total:
  assumes "stash_ok st w" and "live m st w"
    and "alloc (size' m) st w = Inr (buf, st', w0)"
  obtains h where "store m st w = Inr (\<lparr>data = buf, size' = size' m\<rparr>, st', w0\<lparr>bytes := h\<rparr>)"
    and "memcpy buf (data m) (size' m) (bytes w) = Inr h"
proof -
  have "{buf ..< buf + size' m} \<subseteq> free_space st w"
    by (rule alloc_fresh(1) [OF assms(1,3)])
  moreover have "region m \<inter> free_space st w = {}"
    using assms(2) by (simp add: live_def)
  ultimately have "{buf ..< buf + size' m} \<inter> {data m ..< data m + size' m} = {}"
    unfolding region_def by blast
  then obtain h where h: "memcpy buf (data m) (size' m) (bytes w) = Inr h"
    using memcpy_total by blast
  have "bytes w0 = bytes w"
    by (rule alloc_bytes(1) [OF assms(3)])
  with h assms(3) have "store m st w = Inr (\<lparr>data = buf, size' = size' m\<rparr>, st', w0\<lparr>bytes := h\<rparr>)"
    by (simp add: store_def)
  with h that show ?thesis
    by blast
qed

lemma store_content:
  assumes "store m st w = Inr (v, st', w')"
  shows "content (bytes w') v = content (bytes w) m"
proof -
  from assms obtain w0 where c: "memcpy (data v) (data m) (size' m) (bytes w) = Inr (bytes w')"
    and n: "size' v = size' m"
    by (rule store_Inr)
  show ?thesis
  proof (rule nth_equalityI)
    show "length (content (bytes w') v) = length (content (bytes w) m)"
      by (simp add: length_content n)
    show "content (bytes w') v ! i = content (bytes w) m ! i"
      if "i < length (content (bytes w') v)" for i
    proof -
      have i: "i < size' m"
        using that by (simp add: length_content n)
      then show ?thesis
        using memcpy_Inr(2) [OF c i] by (simp add: content_nth n)
    qed
  qed
qed

lemma store_frame:
  assumes "stash_ok st w" and "store m st w = Inr (v, st', w')"
  shows "stash_ok st' w'"
    and "region v \<subseteq> free_space st w"
    and "free_space st' w' \<subseteq> free_space st w - region v"
    and "region v \<subseteq> owned st'"
    and "\<And>a. a \<notin> region v \<Longrightarrow> bytes w' a = bytes w a"
    and "region v \<inter> region m = {}"
    and "requests st' = requests st @ [size' m]"
proof -
  from assms(2) obtain w0 where a: "alloc (size' m) st w = Inr (data v, st', w0)"
    and c: "memcpy (data v) (data m) (size' m) (bytes w) = Inr (bytes w')"
    and n: "size' v = size' m" and w': "w' = w0\<lparr>bytes := bytes w'\<rparr>"
    by (rule store_Inr)
  have rv: "region v = {data v ..< data v + size' m}"
    by (simp add: region_def n)
  have brk: "host_brk w' = host_brk w0" and lim: "host_limit w' = host_limit w0"
    by (subst w', simp)+
  have fs: "free_space st' w' = free_space st' w0"
    by (simp add: free_space_def brk lim)
  show "stash_ok st' w'"
    using alloc_fresh(4) [OF assms(1) a] by (simp add: stash_ok_def brk)
  show "region v \<subseteq> free_space st w"
    using alloc_fresh(1) [OF assms(1) a] by (simp add: rv)
  show "free_space st' w' \<subseteq> free_space st w - region v"
    using alloc_fresh(2) [OF assms(1) a] by (simp add: rv fs)
  show "region v \<subseteq> owned st'"
    using alloc_fresh(3) [OF assms(1) a] by (simp add: rv)
  show "bytes w' a = bytes w a" if "a \<notin> region v" for a
    using memcpy_Inr(3) [OF c] that by (simp add: rv)
  show "region v \<inter> region m = {}"
    using memcpy_Inr(1) [OF c] unfolding region_def n .
  show "requests st' = requests st @ [size' m]"
    by (rule alloc_fresh(6) [OF assms(1) a])
qed

lemma new_BasicStringValue_Inr:
  "new_BasicStringValue m st w = Inr (sv, st', w') \<longleftrightarrow>
     store m st w = Inr (string_value sv, st', w')"
  by (cases sv) (auto simp: new_BasicStringValue_def split: sum.splits)

lemma new_BasicDataValue_Inr:
  "new_BasicDataValue m st w = Inr (dv, st', w') \<longleftrightarrow>
     store m st w = Inr (data_value dv, st', w')"
  by (cases dv) (auto simp: new_BasicDataValue_def split: sum.splits)

lemma new_BasicStringValue_Inl:
  "new_BasicStringValue m st w = Inl e \<longleftrightarrow> store m st w = Inl e"
  by (auto simp: new_BasicStringValue_def split: sum.splits)

lemma new_BasicDataValue_Inl:
  "new_BasicDataValue m st w = Inl e \<longleftrightarrow> store m st w = Inl e"
  by (auto simp: new_BasicDataValue_def split: sum.splits)

section \<open>The concrete state, evaluated\<close>

lemma hello_ok: "stash_ok new_stash hello_machine"
  by (simp add: stash_ok_def new_stash_def)

lemma hello_live: "live hello new_stash hello_machine"
  by (simp add: live_def region_def free_space_def new_stash_def hello_machine_def hello_def)

lemma hello_alloc: "alloc 5 new_stash hello_machine = Inr (1000, stash_1, machine_1\<lparr>bytes := hello_bytes\<rparr>)"
  by (simp add: alloc_def new_chunk_def host_alloc_def new_stash_def hello_machine_def
      stash_1_def machine_1_def)

lemma hello_store: "store hello new_stash hello_machine = Inr (\<lparr>data = 1000, size' = 5\<rparr>, stash_1, machine_1)"
  by (simp add: store_def hello_alloc hello_def memcpy_def machine_1_def hello_stored_def
      cong: if_cong)

lemma hello_content: "content hello_bytes hello = [104, 101, 108, 108, 111]"
  by (simp add: content_def hello_def hello_bytes_def upt_rec)

lemma hello_stored_content: "content hello_stored \<lparr>data = 1000, size' = 5\<rparr> = [104, 101, 108, 108, 111]"
  by (simp add: content_def hello_stored_def hello_bytes_def upt_rec)

lemma hello_alloc': "alloc (size' hello) new_stash hello_machine = Inr (1000, stash_1, machine_1\<lparr>bytes := hello_bytes\<rparr>)"
  using hello_alloc by (simp add: hello_def)

lemma hello_machine_bytes: "bytes hello_machine = hello_bytes"
  by (simp add: hello_machine_def)

lemma machine_1_bytes: "bytes machine_1 = hello_stored"
  by (simp add: machine_1_def)

lemma payload_store:
  "store payload stash_1 machine_1 = Inr (\<lparr>data = 1005, size' = 3\<rparr>, stash_2, machine_2)"
  by (simp add: store_def alloc_def payload_def memcpy_def stash_1_def stash_2_def machine_1_def
      machine_2_def payload_stored_def cong: if_cong)

lemma payload_stored_hello:
  "content payload_stored \<lparr>data = 1000, size' = 5\<rparr> = [104, 101, 108, 108, 111]"
  by (simp add: content_def payload_stored_def hello_stored_def hello_bytes_def upt_rec)

lemma machine_2_bytes: "bytes machine_2 = payload_stored"
  by (simp add: machine_2_def)

lemma tight_ok: "stash_ok new_stash tight_machine"
  by (simp add: stash_ok_def new_stash_def)

lemma tight_live: "live hello new_stash tight_machine"
  by (simp add: live_def region_def free_space_def new_stash_def tight_machine_def hello_def)

lemma tight_alloc: "alloc (size' hello) new_stash tight_machine = Inl OutOfMemory"
  by (simp add: alloc_def new_chunk_def host_alloc_def new_stash_def tight_machine_def hello_def)


lemma other_content: "content (bytes other_machine) hello = content (bytes hello_machine) hello"
  by (simp add: content_def other_machine_def hello_machine_def hello_def hello_bytes_def upt_rec)

section \<open>Frames: what a sequence of operations leaves alone\<close>

lemma alloc_requests:
  assumes "alloc n st w = Inr (p, st', w')"
  shows "requests st' = requests st @ [n]"
  using assms
proof (cases rule: alloc_cases)
  case (bump b c cs)
  then show ?thesis by simp
next
  case fresh
  then show ?thesis
    using new_chunk_Inr(4) [OF fresh] by simp
qed

lemma alloc_bytes_update:
  "alloc n st (w\<lparr>bytes := h\<rparr>)
     = map_sum id (\<lambda>(p, s, u). (p, s, u\<lparr>bytes := h\<rparr>)) (alloc n st w)"
proof -
  have "host_alloc k (w\<lparr>bytes := h\<rparr>)
      = map_sum id (\<lambda>(p, u). (p, u\<lparr>bytes := h\<rparr>)) (host_alloc k w)" for k
    by (simp add: host_alloc_def)
  then have "new_chunk n st (w\<lparr>bytes := h\<rparr>)
      = map_sum id (\<lambda>(p, s, u). (p, s, u\<lparr>bytes := h\<rparr>)) (new_chunk n st w)"
    by (simp add: new_chunk_def split: sum.splits)
  then show ?thesis
    by (simp add: alloc_def split: list.splits)
qed

text \<open>
  A set of addresses outside the free space is not written by \<open>store\<close> and stays
  outside the free space.
\<close>

lemma store_keeps:
  assumes "stash_ok st w" and "store m st w = Inr (v, st', w')" and "A \<inter> free_space st w = {}"
  shows "stash_ok st' w'" and "A \<inter> free_space st' w' = {}" and "region v \<inter> A = {}"
    and "\<And>a. a \<in> A \<Longrightarrow> bytes w' a = bytes w a"
proof -
  note f = store_frame [OF assms(1,2)]
  show "stash_ok st' w'"
    by (rule f(1))
  show "A \<inter> free_space st' w' = {}"
    using f(3) assms(3) by blast
  show d: "region v \<inter> A = {}"
    using f(2) assms(3) by blast
  show "bytes w' a = bytes w a" if "a \<in> A" for a
    using f(5) [of a] d that by blast
qed

lemma store_all_keeps:
  assumes "stash_ok st w" and "store_all ms st w = Inr (vs, st', w')"
    and "A \<inter> free_space st w = {}"
  shows "(\<forall>a \<in> A. bytes w' a = bytes w a) \<and> (\<forall>v \<in> set vs. region v \<inter> A = {})"
  using assms
proof (induction ms arbitrary: st w vs)
  case Nil
  then show ?case by simp
next
  case (Cons m ms)
  from Cons.prems(2) obtain v st1 w1 vs' where s: "store m st w = Inr (v, st1, w1)"
    and r: "store_all ms st1 w1 = Inr (vs', st', w')" and vs: "vs = v # vs'"
    by (auto split: sum.splits)
  note k = store_keeps [OF Cons.prems(1) s Cons.prems(3)]
  have "(\<forall>a \<in> A. bytes w' a = bytes w1 a) \<and> (\<forall>v \<in> set vs'. region v \<inter> A = {})"
    by (rule Cons.IH [OF k(1) r k(2)])
  then show ?case
    using k(3,4) by (simp add: vs)
qed

lemma perform_keeps:
  assumes "stash_ok st w" and "perform x st w = Inr (st', w')" and "A \<inter> free_space st w = {}"
  shows "stash_ok st' w' \<and> A \<inter> free_space st' w' = {} \<and> (\<forall>a \<in> A. bytes w' a = bytes w a)"
proof (cases x)
  case (ConstructString m)
  with assms(2) obtain sv where "new_BasicStringValue m st w = Inr (sv, st', w')"
    by (auto split: sum.splits)
  then have "store m st w = Inr (string_value sv, st', w')"
    by (simp add: new_BasicStringValue_Inr)
  then show ?thesis
    using store_keeps [OF assms(1) _ assms(3)] by blast
next
  case (ConstructData m)
  with assms(2) obtain dv where "new_BasicDataValue m st w = Inr (dv, st', w')"
    by (auto split: sum.splits)
  then have "store m st w = Inr (data_value dv, st', w')"
    by (simp add: new_BasicDataValue_Inr)
  then show ?thesis
    using store_keeps [OF assms(1) _ assms(3)] by blast
next
  case (Read v)
  with assms show ?thesis
    by (simp add: read_content_def)
qed

lemma perform_all_keeps:
  assumes "stash_ok st w" and "perform_all xs st w = Inr (st', w')"
    and "A \<inter> free_space st w = {}"
  shows "\<forall>a \<in> A. bytes w' a = bytes w a"
  using assms
proof (induction xs arbitrary: st w)
  case Nil
  then show ?case by simp
next
  case (Cons x xs)
  from Cons.prems(2) obtain st1 w1 where p: "perform x st w = Inr (st1, w1)"
    and r: "perform_all xs st1 w1 = Inr (st', w')"
    by (auto split: sum.splits)
  have k: "stash_ok st1 w1 \<and> A \<inter> free_space st1 w1 = {} \<and> (\<forall>a \<in> A. bytes w1 a = bytes w a)"
    by (rule perform_keeps [OF Cons.prems(1) p Cons.prems(3)])
  then have "\<forall>a \<in> A. bytes w' a = bytes w1 a"
    using Cons.IH [OF _ r] by blast
  with k show ?case
    by simp
qed

lemma machine_bytes_eq:
  fixes w1 w2 :: machine
  assumes "host_brk w2 = host_brk w1" and "host_limit w2 = host_limit w1"
  shows "w2 = w1\<lparr>bytes := bytes w2\<rparr>"
  using assms by (cases w1, cases w2) simp

text \<open>
  \<open>store\<close> looks at memory only under the source: with other bytes elsewhere it fails
  alike, returns the same view and stash, and stores the same content.
\<close>

lemma store_bytes_update:
  assumes "content h m = content (bytes w) m"
  shows "(\<forall>e. store m st (w\<lparr>bytes := h\<rparr>) = Inl e \<longleftrightarrow> store m st w = Inl e)
       \<and> (\<forall>v s u. store m st w = Inr (v, s, u) \<longrightarrow>
            (\<exists>u'. store m st (w\<lparr>bytes := h\<rparr>) = Inr (v, s, u')
               \<and> content (bytes u') v = content (bytes u) v))"
proof (cases "alloc (size' m) st w")
  case (Inl e)
  then show ?thesis
    by (simp add: store_def alloc_bytes_update)
next
  case (Inr r)
  obtain buf st' w0 where r: "r = (buf, st', w0)"
    by (cases r)
  have a: "alloc (size' m) st w = Inr (buf, st', w0)"
    using Inr r by simp
  have a': "alloc (size' m) st (w\<lparr>bytes := h\<rparr>) = Inr (buf, st', w0\<lparr>bytes := h\<rparr>)"
    by (simp add: alloc_bytes_update a)
  show ?thesis
  proof (cases "buf < data m + size' m \<and> data m < buf + size' m")
    case True
    then show ?thesis
      by (simp add: store_def a a' memcpy_def)
  next
    case False
    then obtain u u' where s: "store m st w = Inr (\<lparr>data = buf, size' = size' m\<rparr>, st', u)"
      and s': "store m st (w\<lparr>bytes := h\<rparr>) = Inr (\<lparr>data = buf, size' = size' m\<rparr>, st', u')"
      by (simp add: store_def a a' memcpy_def)
    have "content (bytes u') \<lparr>data = buf, size' = size' m\<rparr>
        = content (bytes u) \<lparr>data = buf, size' = size' m\<rparr>"
      using store_content [OF s] store_content [OF s'] assms by simp
    then show ?thesis
      using s s' by simp
  qed
qed

text \<open>The region of a stored value is outside the free space from then on.\<close>

lemma stored_not_free:
  assumes "stash_ok st w" and "store m st w = Inr (v, st', w')"
  shows "region v \<inter> free_space st' w' = {}"
  using store_frame(3) [OF assms] by blast

section \<open>The claims\<close>

text \<open>
  C1 (content fidelity). For every input view \<open>b\<close>, the empty one included, constructing
  a value of either class from \<open>b\<close> and reading what the value stores gives the bytes
  of \<open>b\<close>. The stash is well-formed, the view is live, and the stash can serve the
  request; then both constructors return, and the bytes under the stored view, read
  in the memory after the call, are the bytes under \<open>b\<close> before the call.
\<close>

theorem content_fidelity:
  assumes "stash_ok st w" and "live b st w" and "alloc (size' b) st w = Inr r"
  shows "(\<exists>sv st' w'. new_BasicStringValue b st w = Inr (sv, st', w')
            \<and> content (bytes w') (string_value sv) = content (bytes w) b)
       \<and> (\<exists>dv st' w'. new_BasicDataValue b st w = Inr (dv, st', w')
            \<and> content (bytes w') (data_value dv) = content (bytes w) b)"
proof -
  obtain buf st' w0 where r: "alloc (size' b) st w = Inr (buf, st', w0)"
    using assms(3) by (cases r) auto
  obtain h where s: "store b st w = Inr (\<lparr>data = buf, size' = size' b\<rparr>, st', w0\<lparr>bytes := h\<rparr>)"
    using store_total [OF assms(1,2) r] by blast
  have c: "content (bytes (w0\<lparr>bytes := h\<rparr>)) \<lparr>data = buf, size' = size' b\<rparr> = content (bytes w) b"
    by (rule store_content [OF s])
  have "new_BasicStringValue b st w
      = Inr (StringValue \<lparr>data = buf, size' = size' b\<rparr>, st', w0\<lparr>bytes := h\<rparr>)"
    by (simp add: new_BasicStringValue_Inr s)
  moreover have "new_BasicDataValue b st w
      = Inr (DataValue \<lparr>data = buf, size' = size' b\<rparr>, st', w0\<lparr>bytes := h\<rparr>)"
    by (simp add: new_BasicDataValue_Inr s)
  ultimately show ?thesis
    using c by (metis BasicStringValue.sel BasicDataValue.sel)
qed

theorem content_fidelity_witness:
  "stash_ok new_stash hello_machine \<and> live hello new_stash hello_machine
   \<and> (\<exists>sv st' w'. new_BasicStringValue hello new_stash hello_machine = Inr (sv, st', w')
         \<and> content (bytes w') (string_value sv) = [104, 101, 108, 108, 111])
   \<and> (\<exists>dv st' w'. new_BasicDataValue hello new_stash hello_machine = Inr (dv, st', w')
         \<and> content (bytes w') (data_value dv) = [104, 101, 108, 108, 111])"
  using content_fidelity [OF hello_ok hello_live hello_alloc'] hello_ok hello_live
  by (simp add: hello_machine_bytes hello_content)

text \<open>
  C5 (the two classes store alike). For the same input view, the same stash and the
  same memory, the constructor of \<open>BasicStringValue\<close> and the constructor of
  \<open>BasicDataValue\<close> fail alike or succeed alike; when they succeed, the member \<open>_value\<close>
  is the same view, the stash and the memory are left the same, and so the stored
  content is the same. Both results are the result of \<open>store\<close>.
\<close>

theorem variants_store_alike:
  "map_sum id (\<lambda>(sv, st', w'). (string_value sv, st', w')) (new_BasicStringValue m st w)
     = store m st w
   \<and> map_sum id (\<lambda>(dv, st', w'). (data_value dv, st', w')) (new_BasicDataValue m st w)
     = store m st w
   \<and> map_sum id (\<lambda>(sv, st', w'). (content (bytes w') (string_value sv), st', w'))
        (new_BasicStringValue m st w)
     = map_sum id (\<lambda>(dv, st', w'). (content (bytes w') (data_value dv), st', w'))
        (new_BasicDataValue m st w)"
  by (simp add: new_BasicStringValue_def new_BasicDataValue_def split: sum.splits)

text \<open>
  C9 (the source is only read). For every input view \<open>m\<close>, a successful call of
  \<open>store\<close> or of either constructor leaves every byte of the memory \<open>m\<close> points to as
  it was. (A failing call throws before anything is written.)
\<close>

theorem source_unchanged:
  "(store m st w = Inr (v, st', w') \<longrightarrow>
      (\<forall>a \<in> region m. bytes w' a = bytes w a) \<and> content (bytes w') m = content (bytes w) m)
   \<and> (new_BasicStringValue m st w = Inr (sv, st', w') \<longrightarrow>
      (\<forall>a \<in> region m. bytes w' a = bytes w a) \<and> content (bytes w') m = content (bytes w) m)
   \<and> (new_BasicDataValue m st w = Inr (dv, st', w') \<longrightarrow>
      (\<forall>a \<in> region m. bytes w' a = bytes w a) \<and> content (bytes w') m = content (bytes w) m)"
proof -
  have *: "(\<forall>a \<in> region m. bytes w' a = bytes w a) \<and> content (bytes w') m = content (bytes w) m"
    if s: "store m st w = Inr (u, st', w')" for u
  proof -
    from s obtain w0 where c: "memcpy (data u) (data m) (size' m) (bytes w) = Inr (bytes w')"
      by (rule store_Inr)
    have "bytes w' a = bytes w a" if "a \<in> region m" for a
    proof -
      have "a \<notin> {data u ..< data u + size' m}"
        using memcpy_Inr(1) [OF c] that unfolding region_def by blast
      then show ?thesis
        by (rule memcpy_Inr(3) [OF c])
    qed
    then show ?thesis
      using content_cong [of m "bytes w'" "bytes w"] by blast
  qed
  show ?thesis
    using * [of v] * [of "string_value sv"] * [of "data_value dv"]
    by (simp add: new_BasicStringValue_Inr new_BasicDataValue_Inr)
qed

theorem source_unchanged_witness:
  "store hello new_stash hello_machine = Inr (\<lparr>data = 1000, size' = 5\<rparr>, stash_1, machine_1)
   \<and> content hello_stored hello = [104, 101, 108, 108, 111]"
  using source_unchanged [of hello new_stash hello_machine "\<lparr>data = 1000, size' = 5\<rparr>" stash_1
      machine_1 "StringValue \<lparr>data = 1000, size' = 5\<rparr>" "DataValue \<lparr>data = 1000, size' = 5\<rparr>"]
    hello_store
  by (simp add: hello_machine_bytes machine_1_bytes hello_content)

text \<open>
  C2 (the steps of construction). For every input view \<open>m\<close>, \<open>store\<close> requests
  \<open>allocate(m.size)\<close> from the stash, a region of exactly the size of the input; if the
  request fails, so does \<open>store\<close>; otherwise \<open>store\<close> copies \<open>m.size\<close> bytes from the
  source into the region, byte for byte, writes nothing else, and returns the view
  whose pointer is the region and whose length is \<open>m.size\<close>. The stash is left as the
  one request left it, and its log of requests has grown by \<open>m.size\<close>.
\<close>

theorem store_steps:
  assumes "stash_ok st w" and "live m st w"
  shows "case alloc (size' m) st w of
           Inl e \<Rightarrow> store m st w = Inl e
         | Inr (buf, st', w0) \<Rightarrow>
             (\<exists>h. store m st w = Inr (\<lparr>data = buf, size' = size' m\<rparr>, st', w0\<lparr>bytes := h\<rparr>)
                \<and> (\<forall>i < size' m. h (buf + i) = bytes w (data m + i))
                \<and> (\<forall>a. a \<notin> {buf ..< buf + size' m} \<longrightarrow> h a = bytes w a)
                \<and> requests st' = requests st @ [size' m])"
proof (cases "alloc (size' m) st w")
  case (Inl e)
  then show ?thesis
    by (simp add: store_def)
next
  case (Inr r)
  obtain buf st' w0 where r: "r = (buf, st', w0)"
    by (cases r)
  have a: "alloc (size' m) st w = Inr (buf, st', w0)"
    using Inr r by simp
  obtain h where s: "store m st w = Inr (\<lparr>data = buf, size' = size' m\<rparr>, st', w0\<lparr>bytes := h\<rparr>)"
    and c: "memcpy buf (data m) (size' m) (bytes w) = Inr h"
    using store_total [OF assms a] by blast
  have "\<forall>i < size' m. h (buf + i) = bytes w (data m + i)"
    using memcpy_Inr(2) [OF c] by blast
  moreover have "\<forall>a. a \<notin> {buf ..< buf + size' m} \<longrightarrow> h a = bytes w a"
    using memcpy_Inr(3) [OF c] by blast
  moreover have "requests st' = requests st @ [size' m]"
    by (rule alloc_fresh(6) [OF assms(1) a])
  ultimately have "\<exists>h. store m st w = Inr (\<lparr>data = buf, size' = size' m\<rparr>, st', w0\<lparr>bytes := h\<rparr>)
      \<and> (\<forall>i < size' m. h (buf + i) = bytes w (data m + i))
      \<and> (\<forall>a. a \<notin> {buf ..< buf + size' m} \<longrightarrow> h a = bytes w a)
      \<and> requests st' = requests st @ [size' m]"
    using s by blast
  then show ?thesis
    by (simp only: a sum.case prod.case)
qed

theorem store_steps_witness:
  "stash_ok new_stash hello_machine \<and> live hello new_stash hello_machine
   \<and> (\<exists>h. store hello new_stash hello_machine
            = Inr (\<lparr>data = 1000, size' = 5\<rparr>, stash_1, machine_1\<lparr>bytes := h\<rparr>)
        \<and> h 1000 = 104 \<and> h 1004 = 111 \<and> h 1005 = 0 \<and> h 100 = 104
        \<and> requests stash_1 = [5])"
proof -
  have "\<exists>h. store hello new_stash hello_machine
            = Inr (\<lparr>data = 1000, size' = size' hello\<rparr>, stash_1, machine_1\<lparr>bytes := h\<rparr>)
        \<and> (\<forall>i < size' hello. h (1000 + i) = hello_bytes (data hello + i))
        \<and> (\<forall>a. a \<notin> {1000 ..< 1000 + size' hello} \<longrightarrow> h a = hello_bytes a)
        \<and> requests stash_1 = requests new_stash @ [size' hello]"
    using store_steps [OF hello_ok hello_live]
    by (simp add: hello_alloc' hello_machine_bytes)
  then obtain h where s: "store hello new_stash hello_machine
            = Inr (\<lparr>data = 1000, size' = size' hello\<rparr>, stash_1, machine_1\<lparr>bytes := h\<rparr>)"
    and i: "\<And>i. i < size' hello \<Longrightarrow> h (1000 + i) = hello_bytes (data hello + i)"
    and o: "\<And>a. a \<notin> {1000 ..< 1000 + size' hello} \<Longrightarrow> h a = hello_bytes a"
    and q: "requests stash_1 = requests new_stash @ [size' hello]"
    by blast
  have "h 1000 = 104"
    using i [of 0] by (simp add: hello_def hello_bytes_def)
  moreover have "h 1004 = 111"
    using i [of 4] by (simp add: hello_def hello_bytes_def)
  moreover have "h 1005 = 0"
    using o [of 1005] by (simp add: hello_def hello_bytes_def)
  moreover have "h 100 = 104"
    using o [of 100] by (simp add: hello_def hello_bytes_def)
  moreover have "requests stash_1 = [5]"
    using q by (simp add: hello_def new_stash_def)
  ultimately show ?thesis
    using s hello_ok hello_live by (auto simp: hello_def)
qed

text \<open>
  C7 (errors). With a well-formed stash and a live source, the only way construction
  fails is the failure of the allocation: whatever error \<open>store\<close> or a constructor
  returns is \<open>OutOfMemory\<close>, and it is the error that the request \<open>allocate(m.size)\<close>
  returned on the state the caller passed in. It is passed on as it is, neither
  swallowed nor retried. Once the stash has handed out a region, the copy does not
  fail: \<open>store\<close> and both constructors return a value.
\<close>

theorem only_allocation_fails:
  assumes "stash_ok st w" and "live m st w"
  shows "(\<forall>e. store m st w = Inl e \<longleftrightarrow> e = OutOfMemory \<and> alloc (size' m) st w = Inl OutOfMemory)
       \<and> (\<forall>e. new_BasicStringValue m st w = Inl e \<longleftrightarrow>
              e = OutOfMemory \<and> alloc (size' m) st w = Inl OutOfMemory)
       \<and> (\<forall>e. new_BasicDataValue m st w = Inl e \<longleftrightarrow>
              e = OutOfMemory \<and> alloc (size' m) st w = Inl OutOfMemory)
       \<and> (\<forall>r. alloc (size' m) st w = Inr r \<longrightarrow>
              (\<exists>v. store m st w = Inr v) \<and> (\<exists>sv. new_BasicStringValue m st w = Inr sv)
              \<and> (\<exists>dv. new_BasicDataValue m st w = Inr dv))"
proof -
  have fail: "store m st w = Inl e \<longleftrightarrow> e = OutOfMemory \<and> alloc (size' m) st w = Inl OutOfMemory"
    for e
  proof (cases "alloc (size' m) st w")
    case (Inl e')
    then have "e' = OutOfMemory"
      by (rule alloc_error)
    with Inl show ?thesis
      by (auto simp: store_def)
  next
    case (Inr r)
    obtain buf st' w0 where "r = (buf, st', w0)"
      by (cases r)
    with Inr have "alloc (size' m) st w = Inr (buf, st', w0)"
      by simp
    then obtain h where "store m st w = Inr (\<lparr>data = buf, size' = size' m\<rparr>, st', w0\<lparr>bytes := h\<rparr>)"
      using store_total [OF assms] by blast
    with Inr show ?thesis
      by simp
  qed
  have ok: "\<exists>v. store m st w = Inr v" if "alloc (size' m) st w = Inr r" for r
  proof -
    obtain buf st' w0 where "r = (buf, st', w0)"
      by (cases r)
    with that have "alloc (size' m) st w = Inr (buf, st', w0)"
      by simp
    then show ?thesis
      using store_total [OF assms] by blast
  qed
  have oks: "\<exists>sv. new_BasicStringValue m st w = Inr sv" if "store m st w = Inr v" for v
    using that by (simp add: new_BasicStringValue_def split: prod.splits)
  have okd: "\<exists>dv. new_BasicDataValue m st w = Inr dv" if "store m st w = Inr v" for v
    using that by (simp add: new_BasicDataValue_def split: prod.splits)
  show ?thesis
    using fail ok oks okd
    by (simp add: new_BasicStringValue_Inl new_BasicDataValue_Inl) blast
qed

theorem only_allocation_fails_witness:
  "stash_ok new_stash tight_machine \<and> live hello new_stash tight_machine
   \<and> store hello new_stash tight_machine = Inl OutOfMemory
   \<and> new_BasicStringValue hello new_stash tight_machine = Inl OutOfMemory
   \<and> new_BasicDataValue hello new_stash tight_machine = Inl OutOfMemory
   \<and> stash_ok new_stash hello_machine \<and> live hello new_stash hello_machine
   \<and> (\<exists>v. store hello new_stash hello_machine = Inr v)
   \<and> (\<exists>sv. new_BasicStringValue hello new_stash hello_machine = Inr sv)
   \<and> (\<exists>dv. new_BasicDataValue hello new_stash hello_machine = Inr dv)"
  using only_allocation_fails [OF tight_ok tight_live]
    only_allocation_fails [OF hello_ok hello_live]
    tight_ok tight_live hello_ok hello_live
  by (simp add: tight_alloc hello_alloc')

text \<open>
  C3 (independence from the source). A value of either class has been constructed
  from the view \<open>b\<close>. Afterwards the caller overwrites its buffer or frees it: the
  memory \<open>h\<close> is arbitrary on the bytes of \<open>b\<close> and as the constructor left it
  everywhere else. The content read through the stored view is the same in \<open>h\<close>, and it
  is still the content \<open>b\<close> had at the call. The stored view shares no byte with the
  caller's buffer, and all of its bytes lie in blocks the stash owns.
\<close>

theorem independent_of_source:
  assumes "stash_ok st w"
    and "new_BasicStringValue b st w = Inr (StringValue v, st', w')
         \<or> new_BasicDataValue b st w = Inr (DataValue v, st', w')"
    and "\<forall>a. a \<notin> region b \<longrightarrow> h a = bytes w' a"
  shows "content h v = content (bytes w') v \<and> content h v = content (bytes w) b
       \<and> region v \<inter> region b = {} \<and> region v \<subseteq> owned st'"
proof -
  have s: "store b st w = Inr (v, st', w')"
    using assms(2) by (auto simp: new_BasicStringValue_Inr new_BasicDataValue_Inr)
  note f = store_frame [OF assms(1) s]
  have "h a = bytes w' a" if "a \<in> region v" for a
    using that f(6) assms(3) by blast
  then have "content h v = content (bytes w') v"
    by (rule content_cong)
  then show ?thesis
    using store_content [OF s] f(4,6) by simp
qed

theorem independent_of_source_witness:
  "stash_ok new_stash hello_machine
   \<and> new_BasicStringValue hello new_stash hello_machine
       = Inr (StringValue \<lparr>data = 1000, size' = 5\<rparr>, stash_1, machine_1)
   \<and> content hello_overwritten hello = [88, 88, 88, 88, 88]
   \<and> content hello_overwritten \<lparr>data = 1000, size' = 5\<rparr> = [104, 101, 108, 108, 111]
   \<and> region \<lparr>data = 1000, size' = 5\<rparr> \<inter> region hello = {}"
proof -
  have c: "new_BasicStringValue hello new_stash hello_machine
      = Inr (StringValue \<lparr>data = 1000, size' = 5\<rparr>, stash_1, machine_1)"
    by (simp add: new_BasicStringValue_Inr hello_store)
  have o: "\<forall>a. a \<notin> region hello \<longrightarrow> hello_overwritten a = bytes machine_1 a"
    by (simp add: region_def hello_def hello_overwritten_def machine_1_bytes)
  have x: "content hello_overwritten hello = [88, 88, 88, 88, 88]"
    by (simp add: content_def hello_def hello_overwritten_def upt_rec)
  have "content hello_overwritten \<lparr>data = 1000, size' = 5\<rparr> = content (bytes hello_machine) hello"
    and "region \<lparr>data = 1000, size' = 5\<rparr> \<inter> region hello = {}"
    using independent_of_source [OF hello_ok disjI1 [OF c] o] by blast+
  then show ?thesis
    using hello_ok c x by (simp add: hello_machine_bytes hello_content)
qed




text \<open>
  C6 (stability under further allocation). Values are constructed one after the other
  against the same stash, from the sources \<open>m1\<close> and then \<open>ms\<close>. The view of the first
  value is the one \<open>store\<close> returned for \<open>m1\<close>: it heads the list of views, at its
  address, after the later constructions. The content under it after all
  constructions equals the content right after its own construction, which is the
  content of \<open>m1\<close>. No later value has a byte in common with it: a later allocation
  neither moves nor overwrites the earlier region.
\<close>

theorem stable_under_allocation:
  assumes "stash_ok st w" and "store_all (m1 # ms) st w = Inr (vs, st', w')"
  shows "\<exists>v1 st1 w1 vs'. store m1 st w = Inr (v1, st1, w1)
           \<and> store_all ms st1 w1 = Inr (vs', st', w') \<and> vs = v1 # vs'
           \<and> content (bytes w') v1 = content (bytes w1) v1
           \<and> content (bytes w') v1 = content (bytes w) m1
           \<and> (\<forall>v \<in> set vs'. region v \<inter> region v1 = {})"
proof -
  from assms(2) obtain v1 st1 w1 vs' where s: "store m1 st w = Inr (v1, st1, w1)"
    and r: "store_all ms st1 w1 = Inr (vs', st', w')" and vs: "vs = v1 # vs'"
    by (auto split: sum.splits)
  have ok1: "stash_ok st1 w1"
    by (rule store_frame(1) [OF assms(1) s])
  have nf: "region v1 \<inter> free_space st1 w1 = {}"
    by (rule stored_not_free [OF assms(1) s])
  have k: "(\<forall>a \<in> region v1. bytes w' a = bytes w1 a) \<and> (\<forall>v \<in> set vs'. region v \<inter> region v1 = {})"
    by (rule store_all_keeps [OF ok1 r nf])
  then have "content (bytes w') v1 = content (bytes w1) v1"
    using content_cong [of v1 "bytes w'" "bytes w1"] by blast
  then show ?thesis
    using s r vs k store_content [OF s] by simp
qed

theorem stable_under_allocation_witness:
  "stash_ok new_stash hello_machine
   \<and> store_all [hello, payload] new_stash hello_machine
       = Inr ([\<lparr>data = 1000, size' = 5\<rparr>, \<lparr>data = 1005, size' = 3\<rparr>], stash_2, machine_2)
   \<and> content (bytes machine_2) \<lparr>data = 1000, size' = 5\<rparr> = [104, 101, 108, 108, 111]
   \<and> region \<lparr>data = 1005, size' = 3\<rparr> \<inter> region \<lparr>data = 1000, size' = 5\<rparr> = {}"
proof -
  have a: "store_all [hello, payload] new_stash hello_machine
      = Inr ([\<lparr>data = 1000, size' = 5\<rparr>, \<lparr>data = 1005, size' = 3\<rparr>], stash_2, machine_2)"
    by (simp add: hello_store payload_store)
  from stable_under_allocation [OF hello_ok a]
  have "content (bytes machine_2) \<lparr>data = 1000, size' = 5\<rparr> = content (bytes hello_machine) hello"
    and "region \<lparr>data = 1005, size' = 3\<rparr> \<inter> region \<lparr>data = 1000, size' = 5\<rparr> = {}"
    by auto
  then show ?thesis
    using hello_ok a by (simp add: hello_machine_bytes hello_content)
qed

text \<open>
  C8 (no mutation, idempotent reads). A value of either class has been constructed.
  Whatever the client does next with the operations it has, constructing further
  values of either class from any sources and reading through any views, the content
  under the value's view stays what it was after construction: a read after the
  operations returns what a read before them returned. A read leaves the memory as it
  was, so a second read returns the result of the first.
\<close>

theorem content_never_changes:
  assumes "stash_ok st w"
    and "new_BasicStringValue b st w = Inr (StringValue v, st1, w1)
         \<or> new_BasicDataValue b st w = Inr (DataValue v, st1, w1)"
    and "perform_all xs st1 w1 = Inr (st2, w2)"
  shows "content (bytes w2) v = content (bytes w1) v
       \<and> fst (read_content v w2) = fst (read_content v w1)
       \<and> snd (read_content v w2) = w2
       \<and> read_content v (snd (read_content v w2)) = read_content v w2"
proof -
  have s: "store b st w = Inr (v, st1, w1)"
    using assms(2) by (auto simp: new_BasicStringValue_Inr new_BasicDataValue_Inr)
  have ok1: "stash_ok st1 w1"
    by (rule store_frame(1) [OF assms(1) s])
  have nf: "region v \<inter> free_space st1 w1 = {}"
    by (rule stored_not_free [OF assms(1) s])
  have "\<forall>a \<in> region v. bytes w2 a = bytes w1 a"
    by (rule perform_all_keeps [OF ok1 assms(3) nf])
  then have "content (bytes w2) v = content (bytes w1) v"
    using content_cong [of v "bytes w2" "bytes w1"] by blast
  then show ?thesis
    by (simp add: read_content_def)
qed

theorem content_never_changes_witness:
  "stash_ok new_stash hello_machine
   \<and> new_BasicStringValue hello new_stash hello_machine
       = Inr (StringValue \<lparr>data = 1000, size' = 5\<rparr>, stash_1, machine_1)
   \<and> perform_all [Read \<lparr>data = 1000, size' = 5\<rparr>, ConstructData payload,
         Read \<lparr>data = 1000, size' = 5\<rparr>] stash_1 machine_1 = Inr (stash_2, machine_2)
   \<and> fst (read_content \<lparr>data = 1000, size' = 5\<rparr> machine_2) = [104, 101, 108, 108, 111]
   \<and> fst (read_content \<lparr>data = 1000, size' = 5\<rparr> machine_1) = [104, 101, 108, 108, 111]"
proof -
  have c: "new_BasicStringValue hello new_stash hello_machine
      = Inr (StringValue \<lparr>data = 1000, size' = 5\<rparr>, stash_1, machine_1)"
    by (simp add: new_BasicStringValue_Inr hello_store)
  have p: "perform_all [Read \<lparr>data = 1000, size' = 5\<rparr>, ConstructData payload,
         Read \<lparr>data = 1000, size' = 5\<rparr>] stash_1 machine_1 = Inr (stash_2, machine_2)"
    by (simp add: read_content_def new_BasicDataValue_def payload_store)
  from content_never_changes [OF hello_ok disjI1 [OF c] p]
  have "fst (read_content \<lparr>data = 1000, size' = 5\<rparr> machine_2)
      = fst (read_content \<lparr>data = 1000, size' = 5\<rparr> machine_1)"
    by blast
  then show ?thesis
    using hello_ok c p by (simp add: read_content_def machine_1_bytes hello_stored_content)
qed

text \<open>
  C10 (determinism). Two constructions are run with the same input view and the same
  stash, in two memories that hold the same bytes under the input view and whose host
  allocator is in the same state; the memories may differ anywhere else. Then \<open>store\<close>
  fails in both or succeeds in both; when it succeeds, both runs return the same view
  and leave the same stash, and the stored content is the same. Each successful
  construction has issued exactly one allocation request, of \<open>m.size\<close> bytes. The
  constructors of the two classes inherit this, since each returns the result of
  \<open>store\<close> in its member.
\<close>

theorem construction_deterministic:
  assumes "host_brk w2 = host_brk w1" and "host_limit w2 = host_limit w1"
    and "content (bytes w2) m = content (bytes w1) m"
  shows "(\<forall>e. store m st w2 = Inl e \<longleftrightarrow> store m st w1 = Inl e)
       \<and> (\<forall>v s u1. store m st w1 = Inr (v, s, u1) \<longrightarrow>
            (\<exists>u2. store m st w2 = Inr (v, s, u2)
               \<and> content (bytes u2) v = content (bytes u1) v)
            \<and> requests s = requests st @ [size' m])
       \<and> (\<forall>e. new_BasicStringValue m st w2 = Inl e \<longleftrightarrow> new_BasicStringValue m st w1 = Inl e)
       \<and> (\<forall>sv s u1. new_BasicStringValue m st w1 = Inr (sv, s, u1) \<longrightarrow>
            (\<exists>u2. new_BasicStringValue m st w2 = Inr (sv, s, u2)
               \<and> content (bytes u2) (string_value sv) = content (bytes u1) (string_value sv)))
       \<and> (\<forall>e. new_BasicDataValue m st w2 = Inl e \<longleftrightarrow> new_BasicDataValue m st w1 = Inl e)
       \<and> (\<forall>dv s u1. new_BasicDataValue m st w1 = Inr (dv, s, u1) \<longrightarrow>
            (\<exists>u2. new_BasicDataValue m st w2 = Inr (dv, s, u2)
               \<and> content (bytes u2) (data_value dv) = content (bytes u1) (data_value dv)))"
proof -
  have w2: "w2 = w1\<lparr>bytes := bytes w2\<rparr>"
    by (rule machine_bytes_eq [OF assms(1,2)])
  note u = store_bytes_update [OF assms(3), of st]
  have E: "\<forall>e. store m st w2 = Inl e \<longleftrightarrow> store m st w1 = Inl e"
    by (subst w2) (use u in blast)
  have S: "\<exists>u2. store m st w2 = Inr (v, s, u2) \<and> content (bytes u2) v = content (bytes u1) v"
    if "store m st w1 = Inr (v, s, u1)" for v s u1
    by (subst w2) (use u that in blast)
  have R: "requests s = requests st @ [size' m]" if s: "store m st w1 = Inr (v, s, u1)" for v s u1
  proof -
    from s obtain w0 where "alloc (size' m) st w1 = Inr (data v, s, w0)"
      by (rule store_Inr)
    then show ?thesis
      by (rule alloc_requests)
  qed
  have A: "\<forall>v s u1. store m st w1 = Inr (v, s, u1) \<longrightarrow>
      (\<exists>u2. store m st w2 = Inr (v, s, u2) \<and> content (bytes u2) v = content (bytes u1) v)
      \<and> requests s = requests st @ [size' m]"
    using S R by blast
  have ES: "\<forall>e. new_BasicStringValue m st w2 = Inl e \<longleftrightarrow> new_BasicStringValue m st w1 = Inl e"
    using E by (simp add: new_BasicStringValue_Inl)
  have ED: "\<forall>e. new_BasicDataValue m st w2 = Inl e \<longleftrightarrow> new_BasicDataValue m st w1 = Inl e"
    using E by (simp add: new_BasicDataValue_Inl)
  have AS: "\<forall>sv s u1. new_BasicStringValue m st w1 = Inr (sv, s, u1) \<longrightarrow>
      (\<exists>u2. new_BasicStringValue m st w2 = Inr (sv, s, u2)
         \<and> content (bytes u2) (string_value sv) = content (bytes u1) (string_value sv))"
    unfolding new_BasicStringValue_Inr using S by blast
  have AD: "\<forall>dv s u1. new_BasicDataValue m st w1 = Inr (dv, s, u1) \<longrightarrow>
      (\<exists>u2. new_BasicDataValue m st w2 = Inr (dv, s, u2)
         \<and> content (bytes u2) (data_value dv) = content (bytes u1) (data_value dv))"
    unfolding new_BasicDataValue_Inr using S by blast
  show ?thesis
    by (rule conjI [OF E conjI [OF A conjI [OF ES conjI [OF AS conjI [OF ED AD]]]]])
qed

theorem construction_deterministic_witness:
  "host_brk other_machine = host_brk hello_machine
   \<and> host_limit other_machine = host_limit hello_machine
   \<and> bytes other_machine 300 = 7 \<and> bytes hello_machine 300 = 0
   \<and> store hello new_stash hello_machine = Inr (\<lparr>data = 1000, size' = 5\<rparr>, stash_1, machine_1)
   \<and> (\<exists>u2. store hello new_stash other_machine = Inr (\<lparr>data = 1000, size' = 5\<rparr>, stash_1, u2)
         \<and> content (bytes u2) \<lparr>data = 1000, size' = 5\<rparr> = [104, 101, 108, 108, 111])
   \<and> requests stash_1 = requests new_stash @ [5]"
proof -
  have b: "host_brk other_machine = host_brk hello_machine"
    and l: "host_limit other_machine = host_limit hello_machine"
    by (simp_all add: other_machine_def hello_machine_def)
  note d = construction_deterministic [OF b l other_content, of new_stash]
  have "\<exists>u2. store hello new_stash other_machine = Inr (\<lparr>data = 1000, size' = 5\<rparr>, stash_1, u2)
         \<and> content (bytes u2) \<lparr>data = 1000, size' = 5\<rparr>
           = content (bytes machine_1) \<lparr>data = 1000, size' = 5\<rparr>"
    and "requests stash_1 = requests new_stash @ [size' hello]"
    using d hello_store by blast+
  then show ?thesis
    using b l hello_store
    by (simp add: machine_1_bytes hello_stored_content other_machine_def hello_machine_def
        hello_bytes_def hello_def)
qed

end
